theory Spec2Isabelle
  imports Complex_Main
begin

section \<open>IMOS: document indexing and retrieval-augmented answering\<close>

text \<open>
  A shallow embedding of \<^verbatim>\<open>streamlit_app.py\<close>. Python exceptions are values of
  \<open>py_exn\<close>; a function that can raise returns \<open>py_exn + 'a\<close> with \<open>Inl\<close> the
  exception. Numbers that numpy holds as floats are modelled as exact reals, with
  the three special results of a float division by zero written out. Rounding, underflow
  and overflow are not modelled: a property of \<open>cosine_sim\<close> that needs exact arithmetic
  is stated only where the claim asks for exact arithmetic, and nothing proved about a
  search depends on how large a score is, beyond the test the code makes on it.
\<close>

subsection \<open>Exceptions and numpy scalars\<close>

datatype py_exn =
    ValueError
  | KeyError
  | IndexError
  | TypeError
  | AttributeError
  | JSONDecodeError
  | HTTPError nat
  | RequestException
  | RuntimeError string

datatype npfloat = Fin real | PInf | NInf | NaN

text \<open>
  \<^verbatim>\<open>x / y\<close> on two \<^verbatim>\<open>np.float64\<close> values: a zero divisor raises nothing (numpy
  emits a warning only) and gives \<^verbatim>\<open>nan\<close> for \<^verbatim>\<open>0/0\<close>, an infinity otherwise.
\<close>

definition np_div :: "real \<Rightarrow> real \<Rightarrow> npfloat" where
  "np_div x y =
     (if y \<noteq> 0 then Fin (x / y)
      else if x = 0 then NaN
      else if 0 < x then PInf
      else NInf)"

text \<open>\<^verbatim>\<open>score > c\<close> for a float constant \<open>c\<close>: false on \<^verbatim>\<open>nan\<close>.\<close>

fun np_gt :: "npfloat \<Rightarrow> real \<Rightarrow> bool" where
  "np_gt (Fin r) c = (c < r)"
| "np_gt PInf c = True"
| "np_gt NInf c = False"
| "np_gt NaN c = False"

text \<open>\<^verbatim>\<open>x < y\<close> on two floats, as the sort compares keys: false when either is \<^verbatim>\<open>nan\<close>.\<close>

fun np_lt :: "npfloat \<Rightarrow> npfloat \<Rightarrow> bool" where
  "np_lt (Fin r) (Fin s) = (r < s)"
| "np_lt (Fin r) PInf = True"
| "np_lt NInf (Fin s) = True"
| "np_lt NInf PInf = True"
| "np_lt x y = False"

text \<open>\<^verbatim>\<open>np.dot\<close> on two one-dimensional arrays: shapes that differ raise \<^verbatim>\<open>ValueError\<close>.\<close>

definition np_dot :: "real list \<Rightarrow> real list \<Rightarrow> py_exn + real" where
  "np_dot a b =
     (if length a \<noteq> length b then Inl ValueError
      else Inr (sum_list (map (\<lambda>(x, y). x * y) (zip a b))))"

text \<open>\<^verbatim>\<open>np.linalg.norm\<close> of a one-dimensional array: the square root of the sum of squares.\<close>

definition np_norm :: "real list \<Rightarrow> real" where
  "np_norm a = sqrt (sum_list (map (\<lambda>x. x * x) a))"

subsection \<open>Cosine similarity\<close>

text \<open>
  \<^verbatim>\<open>
  def cosine_sim(a, b):
      return np.dot(a, b) / (np.linalg.norm(a) * np.linalg.norm(b))
  \<close>
  The dot product is evaluated first, so a shape mismatch raises before any norm is taken.
  There is no guard on the divisor.
\<close>

definition cosine_sim :: "real list \<Rightarrow> real list \<Rightarrow> py_exn + npfloat" where
  "cosine_sim a b =
     (case np_dot a b of
        Inl e \<Rightarrow> Inl e
      | Inr d \<Rightarrow> Inr (np_div d (np_norm a * np_norm b)))"

subsection \<open>The document store\<close>

text \<open>
  The table \<^verbatim>\<open>pdf_documents\<close> of \<open>setup_db\<close>. Columns without \<^verbatim>\<open>NOT NULL\<close> that
  the code tests for \<^verbatim>\<open>NULL\<close> are options. The \<^verbatim>\<open>embedding\<close> column holds text: what
  \<^verbatim>\<open>json.dumps\<close> wrote for a list of floats (\<open>JsonVec\<close>), the empty string, or any
  other text, on which \<^verbatim>\<open>json.loads\<close> or the arithmetic after it raises.
\<close>

datatype embedding_blob = JsonVec "real list" | EmptyText | BadText

record doc_meta =
  file_id :: string
  name :: string
  drive_link :: string
  modified_time :: string
  size_bytes :: int
  parent :: string

record pdf_document = doc_meta +
  row_id :: nat
  user_id :: "string option"
  text_content :: "string option"
  embedding :: "embedding_blob option"
  last_indexed :: nat

text \<open>
  The rows are kept in \<^verbatim>\<open>rowid\<close> order, the order in which a \<^verbatim>\<open>SELECT\<close> without
  \<^verbatim>\<open>ORDER BY\<close> enumerates them. \<open>sqlite_sequence\<close> is the largest \<^verbatim>\<open>id\<close> that
  \<^verbatim>\<open>AUTOINCREMENT\<close> has handed out.
\<close>

record database =
  rows :: "pdf_document list"
  sqlite_sequence :: nat

definition setup_db :: database where
  "setup_db = \<lparr>rows = [], sqlite_sequence = 0\<rparr>"

text \<open>
  \<^verbatim>\<open>
  def save_pdf_to_db(user_id, file_id, name, drive_link, modified_time, size, parent,
                     text_content, embedding=None):
      c.execute('INSERT OR REPLACE INTO pdf_documents (user_id, file_id, ...) VALUES (...)',
                (..., text_content, embedding, datetime.utcnow()))
  \<close>
  \<^verbatim>\<open>file_id\<close> is \<^verbatim>\<open>UNIQUE NOT NULL\<close> and no \<^verbatim>\<open>id\<close> is given, so the only conflict
  \<^verbatim>\<open>OR REPLACE\<close> can resolve is on \<^verbatim>\<open>file_id\<close>: every row holding it is deleted and
  the new row is inserted under a fresh \<^verbatim>\<open>id\<close>. \<open>now\<close> is the reading of
  \<^verbatim>\<open>datetime.utcnow()\<close>.
\<close>

definition save_pdf_to_db ::
  "nat \<Rightarrow> string option \<Rightarrow> string \<Rightarrow> string \<Rightarrow> string \<Rightarrow> string \<Rightarrow> int \<Rightarrow> string \<Rightarrow>
   string option \<Rightarrow> embedding_blob option \<Rightarrow> database \<Rightarrow> database" where
  "save_pdf_to_db now uid fid nm link mtime sz par txt emb d =
     (let rid = Suc (fold max (map row_id (rows d)) (sqlite_sequence d)) in
      \<lparr>rows = filter (\<lambda>r. file_id r \<noteq> fid) (rows d) @
         [\<lparr>file_id = fid, name = nm, drive_link = link, modified_time = mtime,
           size_bytes = sz, parent = par, row_id = rid, user_id = uid,
           text_content = txt, embedding = emb, last_indexed = now\<rparr>],
       sqlite_sequence = rid\<rparr>)"

subsection \<open>Session, user interface and collaborators\<close>

text \<open>
  What \<^verbatim>\<open>st.error\<close>, \<^verbatim>\<open>st.warning\<close>, \<^verbatim>\<open>st.success\<close>, \<^verbatim>\<open>st.info\<close>,
  \<^verbatim>\<open>st.write\<close>, the status line, the progress bar and \<^verbatim>\<open>st.rerun\<close> do is appended to
  a log. An error message built from an exception carries the fixed text and the exception;
  a message that prints numbers carries the numbers (\<open>Progress n d\<close> is the fraction
  \<open>n / d\<close>). The pictographs that open some messages are left out.
\<close>

datatype ui_event =
    StError string "py_exn option"
  | StWarning string
  | StSuccess string
  | StInfo string
  | StWrite string
  | StatusText string
  | StatusProcessing string nat nat
  | ImportStart nat string
  | ImportSummary nat nat
  | Progress nat nat
  | Rerun

type_synonym encoder = "string \<Rightarrow> py_exn + real list"

record match = doc_meta +
  snippet :: string
  score :: npfloat

text \<open>
  A conversation turn as \<open>chat_page\<close> stores it: a dict with the keys \<^verbatim>\<open>role\<close>,
  \<^verbatim>\<open>content\<close> and (assistant turns) \<^verbatim>\<open>sources\<close>. A key may be missing, and a value
  may be any object: \<open>NonStr t\<close> is an object that is not a \<^verbatim>\<open>str\<close>, with \<open>t\<close> the
  text \<^verbatim>\<open>str()\<close> gives for it. \<open>NotADict\<close> is a history entry that is no dict at all.
\<close>

datatype py_val = Str string | NonStr string

record turn =
  role :: "py_val option"
  content :: "py_val option"
  sources :: "match list option"

datatype history_entry = Dict turn | NotADict

record chat_message =
  msg_role :: string
  msg_content :: string

text \<open>A parsed JSON document, as \<^verbatim>\<open>response.json()\<close> returns it.\<close>

datatype json =
    JNull
  | JBool bool
  | JNum real
  | JStr string
  | JArr "json list"
  | JObj "(string \<times> json) list"

text \<open>
  What \<^verbatim>\<open>requests.post\<close> gives: an exception (no connection, timeout, too many
  redirects), or a response with a status code and a body, \<open>None\<close> when the body is not JSON.
  A response with a status below 200, or 204, or 304 has no body, so its body is \<open>None\<close>.
\<close>

datatype http_result = ConnectionFailed | Response nat "json option"

text \<open>Reads and writes that leave the process, in the order they happen.\<close>

datatype io_event =
    Encode string
  | DriveDownload string
  | DbSelect "string option"
  | DbReplace string
  | HttpPost "chat_message list"

text \<open>
  The collaborators the code calls: loading the two sentence-transformer models,
  the Drive download with text extraction (the stripped text of the PDF, or the exception
  raised on the way), the chat-completion endpoint and the clock (\<open>utcnow i\<close> is its
  reading while document \<open>i\<close> of a batch is saved).
\<close>

record env =
  load_primary :: "py_exn + encoder"
  load_fallback :: "py_exn + encoder"
  fetch_pdf :: "string \<Rightarrow> py_exn + string"
  http_post :: "chat_message list \<Rightarrow> http_result"
  utcnow :: "nat \<Rightarrow> nat"

text \<open>\<^verbatim>\<open>st.session_state\<close>, the database file, and the two logs.\<close>

record world =
  db :: database
  embed_model :: "encoder option"
  session_user_id :: string
  conversation_history :: "history_entry list"
  import_complete :: bool
  ui :: "ui_event list"
  io :: "io_event list"

definition show_ui :: "ui_event \<Rightarrow> world \<Rightarrow> world" where
  "show_ui e w = w\<lparr>ui := ui w @ [e]\<rparr>"

definition do_io :: "io_event \<Rightarrow> world \<Rightarrow> world" where
  "do_io e w = w\<lparr>io := io w @ [e]\<rparr>"

subsection \<open>The embedder\<close>

text \<open>
  \<^verbatim>\<open>
  def get_embed_model():
      if st.session_state.embed_model is None:
          try:
              st.session_state.embed_model = SentenceTransformer("all-MiniLM-L6-v2")
          except Exception as e:
              st.error(f"Error loading embedding model: {e}")
              try:
                  st.session_state.embed_model = SentenceTransformer("paraphrase-MiniLM-L3-v2")
              except Exception as e2:
                  st.error(f"Failed to load fallback model: {e2}")
                  raise
      return st.session_state.embed_model
  \<close>
\<close>

definition get_embed_model :: "env \<Rightarrow> world \<Rightarrow> (py_exn + encoder) \<times> world" where
  "get_embed_model ev w =
     (case embed_model w of
        Some m \<Rightarrow> (Inr m, w)
      | None \<Rightarrow>
          (case load_primary ev of
             Inr m \<Rightarrow> (Inr m, w\<lparr>embed_model := Some m\<rparr>)
           | Inl e \<Rightarrow>
               (let w1 = show_ui (StError ''Error loading embedding model: '' (Some e)) w in
                case load_fallback ev of
                  Inr m \<Rightarrow> (Inr m, w1\<lparr>embed_model := Some m\<rparr>)
                | Inl e2 \<Rightarrow>
                    (Inl e2, show_ui (StError ''Failed to load fallback model: '' (Some e2)) w1))))"

text \<open>
  \<^verbatim>\<open>
  def compute_embedding(text):
      if len(text) > 4000:
          text = text[:4000]
      model = get_embed_model()
      emb = model.encode(text, convert_to_numpy=True).tolist()
      return json.dumps(emb)
  \<close>
\<close>

definition compute_embedding :: "env \<Rightarrow> string \<Rightarrow> world \<Rightarrow> (py_exn + embedding_blob) \<times> world" where
  "compute_embedding ev text w =
     (let text1 = (if length text > 4000 then take 4000 text else text) in
      case get_embed_model ev w of
        (Inl e, w1) \<Rightarrow> (Inl e, w1)
      | (Inr model, w1) \<Rightarrow>
          (let w2 = do_io (Encode text1) w1 in
           case model text1 of
             Inl e \<Rightarrow> (Inl e, w2)
           | Inr emb \<Rightarrow> (Inr (JsonVec emb), w2)))"

subsection \<open>The retriever\<close>

text \<open>
  The two \<^verbatim>\<open>SELECT\<close> statements of \<open>semantic_search\<close>. \<^verbatim>\<open>if user_id:\<close> is false
  on \<^verbatim>\<open>None\<close> and on the empty string; \<^verbatim>\<open>user_id = ?\<close> never matches a \<^verbatim>\<open>NULL\<close>.
\<close>

definition select_embedded :: "string option \<Rightarrow> database \<Rightarrow> pdf_document list" where
  "select_embedded uid d =
     (if uid \<noteq> None \<and> uid \<noteq> Some []
      then filter (\<lambda>r. user_id r = uid \<and> embedding r \<noteq> None) (rows d)
      else filter (\<lambda>r. embedding r \<noteq> None) (rows d))"

text \<open>
  The body of the loop over the fetched rows, for one row: the matches it appends.
  \<^verbatim>\<open>
  try:
      if row[7]:
          pdf_emb = np.array(json.loads(row[7]))
          score = cosine_sim(query_emb, pdf_emb)
          if score > 0.1:
              results.append({..., 'snippet': row[6][:400] if row[6] else '',
                              'score': float(score)})
  except Exception as e:
      continue
  \<close>
\<close>

definition row_snippet :: "pdf_document \<Rightarrow> string" where
  "row_snippet r =
     (case text_content r of
        None \<Rightarrow> []
      | Some t \<Rightarrow> (if t \<noteq> [] then take 400 t else []))"

definition row_match :: "pdf_document \<Rightarrow> npfloat \<Rightarrow> match" where
  "row_match r s =
     \<lparr>file_id = file_id r, name = name r, drive_link = drive_link r,
      modified_time = modified_time r, size_bytes = size_bytes r, parent = parent r,
      snippet = row_snippet r, score = s\<rparr>"

definition score_row :: "real list \<Rightarrow> pdf_document \<Rightarrow> match list" where
  "score_row query_emb r =
     (case embedding r of
        None \<Rightarrow> []
      | Some EmptyText \<Rightarrow> []
      | Some BadText \<Rightarrow> []
      | Some (JsonVec pdf_emb) \<Rightarrow>
          (case cosine_sim query_emb pdf_emb of
             Inl e \<Rightarrow> []
           | Inr s \<Rightarrow> (if np_gt s (1 / 10) then [row_match r s] else [])))"

fun score_rows :: "real list \<Rightarrow> pdf_document list \<Rightarrow> match list \<Rightarrow> match list" where
  "score_rows query_emb [] results = results"
| "score_rows query_emb (r # rest) results =
     score_rows query_emb rest (results @ score_row query_emb r)"

text \<open>
  \<^verbatim>\<open>sorted(results, key=lambda x: x['score'], reverse=True)\<close>. Python's sort is stable,
  and with \<^verbatim>\<open>reverse=True\<close> entries of equal key still keep their original order. The
  keys are compared with \<^verbatim>\<open><\<close> only. On keys that \<^verbatim>\<open><\<close> orders totally the result is
  the one a stable insertion sort gives: an entry moves behind a later one only when its
  key is strictly smaller.
\<close>

fun insert_desc :: "match \<Rightarrow> match list \<Rightarrow> match list" where
  "insert_desc x [] = [x]"
| "insert_desc x (y # ys) =
     (if np_lt (score x) (score y) then y # insert_desc x ys else x # y # ys)"

definition sorted_by_score_desc :: "match list \<Rightarrow> match list" where
  "sorted_by_score_desc xs = foldr insert_desc xs []"

text \<open>The slice \<^verbatim>\<open>xs[:k]\<close>: a negative \<open>k\<close> counts from the end.\<close>

definition slice_to :: "int \<Rightarrow> 'a list \<Rightarrow> 'a list" where
  "slice_to k xs =
     (if 0 \<le> k then take (nat k) xs else take (length xs - nat (- k)) xs)"

text \<open>
  \<^verbatim>\<open>
  def semantic_search(query, top_k=5, user_id=None):
      if not query:
          return []
      model = get_embed_model()
      query_emb = model.encode(query, convert_to_numpy=True)
      ... SELECT ...
      results = []
      for row in c.fetchall(): ...
      results = sorted(results, key=lambda x: x['score'], reverse=True)[:top_k]
      return results
  \<close>
  Loading the model and encoding the query are outside any \<^verbatim>\<open>try\<close>: their exceptions
  leave the function.
\<close>

definition semantic_search ::
  "env \<Rightarrow> string \<Rightarrow> int \<Rightarrow> string option \<Rightarrow> world \<Rightarrow> (py_exn + match list) \<times> world" where
  "semantic_search ev query top_k uid w =
     (if query = [] then (Inr [], w)
      else
        case get_embed_model ev w of
          (Inl e, w1) \<Rightarrow> (Inl e, w1)
        | (Inr model, w1) \<Rightarrow>
            (let w2 = do_io (Encode query) w1 in
             case model query of
               Inl e \<Rightarrow> (Inl e, w2)
             | Inr query_emb \<Rightarrow>
                 (let w3 = do_io (DbSelect uid) w2;
                      results = score_rows query_emb (select_embedded uid (db w3)) []
                  in (Inr (slice_to top_k (sorted_by_score_desc results)), w3))))"

subsection \<open>The conversation context and the answer generator\<close>

text \<open>\<^verbatim>\<open>sep.join(parts)\<close>.\<close>

fun join :: "string \<Rightarrow> string list \<Rightarrow> string" where
  "join sep [] = []"
| "join sep [x] = x"
| "join sep (x # y # ys) = x @ sep @ join sep (y # ys)"

definition newline :: string where
  "newline = [CHR 0x0A]"

text \<open>
  \<^verbatim>\<open>
  context = "\n---\n".join([f"{doc['name']}:\n{doc['snippet']}" for doc in top_matches])
  system_message = {"role": "system", "content": (...)}
  \<close>
\<close>

definition context_of :: "match list \<Rightarrow> string" where
  "context_of top_matches =
     join (newline @ ''---'' @ newline)
       (map (\<lambda>doc. name doc @ '':'' @ newline @ snippet doc) top_matches)"

definition system_message :: "match list \<Rightarrow> chat_message" where
  "system_message top_matches =
     \<lparr>msg_role = ''system'',
      msg_content =
        ''You are IMOS, an intelligent memory OS for professionals and solopreneurs. '' @
        ''You help users understand and analyze their documents through natural conversation. '' @
        newline @ ''RELEVANT DOCUMENT CONTEXT:'' @ newline @ context_of top_matches @
        newline @ newline @
        ''Guidelines:'' @ newline @
        ''- Use the provided context to answer questions accurately'' @ newline @
        ''- Reference specific documents when citing information'' @ newline @
        ''- If the context doesn'' @ [CHR 0x27] @
        ''t contain relevant information, say so politely'' @ newline @
        ''- Maintain conversation flow and refer to previous exchanges when relevant'' @ newline @
        ''- Be concise but thorough in your responses''\<rparr>"

text \<open>\<^verbatim>\<open>str(v)\<close>, and \<^verbatim>\<open>v in ['user', 'assistant']\<close>: no object but a \<^verbatim>\<open>str\<close> equals a \<^verbatim>\<open>str\<close>.\<close>

fun py_str :: "py_val \<Rightarrow> string" where
  "py_str (Str s) = s"
| "py_str (NonStr t) = t"

fun user_or_assistant :: "py_val \<Rightarrow> string option" where
  "user_or_assistant (Str s) = (if s = ''user'' \<or> s = ''assistant'' then Some s else None)"
| "user_or_assistant (NonStr t) = None"

text \<open>
  The cleaning loop, for one history entry: the messages it appends.
  \<^verbatim>\<open>
  if isinstance(msg, dict) and 'role' in msg and 'content' in msg:
      cleaned_msg = {"role": msg['role'], "content": str(msg['content'])}
      if cleaned_msg['role'] in ['user', 'assistant']:
          cleaned_messages.append(cleaned_msg)
  \<close>
\<close>

fun clean_entry :: "history_entry \<Rightarrow> chat_message list" where
  "clean_entry NotADict = []"
| "clean_entry (Dict t) =
     (case (role t, content t) of
        (Some r, Some c) \<Rightarrow>
          (case user_or_assistant r of
             Some s \<Rightarrow> [\<lparr>msg_role = s, msg_content = py_str c\<rparr>]
           | None \<Rightarrow> [])
      | _ \<Rightarrow> [])"

fun clean_history :: "history_entry list \<Rightarrow> chat_message list \<Rightarrow> chat_message list" where
  "clean_history [] cleaned_messages = cleaned_messages"
| "clean_history (msg # rest) cleaned_messages =
     clean_history rest (cleaned_messages @ clean_entry msg)"

text \<open>
  \<^verbatim>\<open>
  if len(cleaned_messages) > 10:
      cleaned_messages = cleaned_messages[-10:]
  messages = [system_message] + cleaned_messages
  \<close>
\<close>

definition build_messages :: "history_entry list \<Rightarrow> match list \<Rightarrow> chat_message list" where
  "build_messages history top_matches =
     (let cleaned_messages = clean_history history [];
          cleaned_messages =
            (if length cleaned_messages > 10
             then drop (length cleaned_messages - 10) cleaned_messages
             else cleaned_messages)
      in system_message top_matches # cleaned_messages)"

text \<open>
  Subscripting and \<^verbatim>\<open>.strip()\<close> on a parsed JSON value. A JSON object has string keys
  only, so the key \<^verbatim>\<open>0\<close> is never in it; the first character of a string is a string.
\<close>

fun getitem_key :: "json \<Rightarrow> string \<Rightarrow> py_exn + json" where
  "getitem_key (JObj kvs) k = (case map_of kvs k of None \<Rightarrow> Inl KeyError | Some v \<Rightarrow> Inr v)"
| "getitem_key v k = Inl TypeError"

fun getitem_0 :: "json \<Rightarrow> py_exn + json" where
  "getitem_0 (JArr []) = Inl IndexError"
| "getitem_0 (JArr (x # xs)) = Inr x"
| "getitem_0 (JStr []) = Inl IndexError"
| "getitem_0 (JStr (c # cs)) = Inr (JStr [c])"
| "getitem_0 (JObj kvs) = Inl KeyError"
| "getitem_0 v = Inl TypeError"

definition is_space :: "char \<Rightarrow> bool" where
  "is_space c \<longleftrightarrow> c \<in> set [CHR '' '', CHR 0x09, CHR 0x0A, CHR 0x0B, CHR 0x0C, CHR 0x0D,
                             CHR 0x1C, CHR 0x1D, CHR 0x1E, CHR 0x1F]"

definition strip :: "string \<Rightarrow> string" where
  "strip s = rev (dropWhile is_space (rev (dropWhile is_space s)))"

fun strip_method :: "json \<Rightarrow> py_exn + string" where
  "strip_method (JStr s) = Inr (strip s)"
| "strip_method v = Inl AttributeError"

text \<open>
  \<^verbatim>\<open>
  response.raise_for_status()
  answer = response.json()['choices'][0]['message']['content'].strip()
  \<close>
  \<^verbatim>\<open>raise_for_status\<close> raises \<^verbatim>\<open>HTTPError\<close> for the status codes 400 to 599 and for
  no other.
\<close>

definition read_answer :: "http_result \<Rightarrow> py_exn + string" where
  "read_answer res =
     (case res of
        ConnectionFailed \<Rightarrow> Inl RequestException
      | Response status body \<Rightarrow>
          (if 400 \<le> status \<and> status < 600 then Inl (HTTPError status)
           else
             case body of
               None \<Rightarrow> Inl JSONDecodeError
             | Some j \<Rightarrow>
                 (case getitem_key j ''choices'' of
                    Inl e \<Rightarrow> Inl e
                  | Inr cs \<Rightarrow>
                      (case getitem_0 cs of
                         Inl e \<Rightarrow> Inl e
                       | Inr c \<Rightarrow>
                           (case getitem_key c ''message'' of
                              Inl e \<Rightarrow> Inl e
                            | Inr m \<Rightarrow>
                                (case getitem_key m ''content'' of
                                   Inl e \<Rightarrow> Inl e
                                 | Inr a \<Rightarrow> strip_method a))))))"

definition apology :: string where
  "apology = ''Sorry, I encountered an error while processing your request.''"

text \<open>
  \<^verbatim>\<open>
  def answer_query_with_groq(conversation_history, top_matches, groq_api_key):
      ...
      try:
          response = requests.post(groq_api_url, headers=headers, json=payload)
          response.raise_for_status()
          answer = response.json()['choices'][0]['message']['content'].strip()
          return answer, top_matches
      except Exception as e:
          st.error(f"Error calling Groq API: {str(e)}")
          return "Sorry, I encountered an error while processing your request.", []
  \<close>
\<close>

definition answer_query_with_groq ::
  "env \<Rightarrow> history_entry list \<Rightarrow> match list \<Rightarrow> world \<Rightarrow> (string \<times> match list) \<times> world" where
  "answer_query_with_groq ev history top_matches w =
     (let messages = build_messages history top_matches;
          w1 = do_io (HttpPost messages) w
      in case read_answer (http_post ev messages) of
           Inr answer \<Rightarrow> ((answer, top_matches), w1)
         | Inl e \<Rightarrow>
             ((apology, []), show_ui (StError ''Error calling Groq API: '' (Some e)) w1))"

text \<open>
  The part of \<open>chat_page\<close> that handles a submitted question.
  \<^verbatim>\<open>
  if user_query:
      st.session_state.conversation_history.append({'role': 'user', 'content': user_query})
      ...
      top_matches = semantic_search(user_query, top_k=5, user_id=st.session_state.user_id)
      answer, sources = answer_query_with_groq(
          st.session_state.conversation_history, top_matches, groq_api_key)
      st.write(answer)
      ...
      st.session_state.conversation_history.append(
          {'role': 'assistant', 'content': answer, 'sources': sources})
  \<close>
\<close>

definition user_turn :: "string \<Rightarrow> history_entry" where
  "user_turn q = Dict \<lparr>role = Some (Str ''user''), content = Some (Str q), sources = None\<rparr>"

definition assistant_turn :: "string \<Rightarrow> match list \<Rightarrow> history_entry" where
  "assistant_turn a srcs =
     Dict \<lparr>role = Some (Str ''assistant''), content = Some (Str a), sources = Some srcs\<rparr>"

definition chat_submit :: "env \<Rightarrow> string \<Rightarrow> world \<Rightarrow> (py_exn + unit) \<times> world" where
  "chat_submit ev user_query w =
     (if user_query = [] then (Inr (), w)
      else
        (let w1 = w\<lparr>conversation_history := conversation_history w @ [user_turn user_query]\<rparr>;
             w2 = show_ui (StWrite user_query) w1
         in case semantic_search ev user_query 5 (Some (session_user_id w2)) w2 of
              (Inl e, w3) \<Rightarrow> (Inl e, w3)
            | (Inr top_matches, w3) \<Rightarrow>
                (case answer_query_with_groq ev (conversation_history w3) top_matches w3 of
                   ((answer, srcs), w4) \<Rightarrow>
                     (let w5 = show_ui (StWrite answer) w4
                      in (Inr (),
                          w5\<lparr>conversation_history :=
                                conversation_history w5 @ [assistant_turn answer srcs]\<rparr>)))))"

subsection \<open>Batch import\<close>

text \<open>An entry of the Drive listing, as \<open>list_all_pdfs\<close> builds it.\<close>

record drive_pdf =
  pdf_id :: string
  pdf_name :: string
  pdf_size :: int
  pdf_modifiedTime :: string
  pdf_parent :: string

text \<open>
  \<open>download_pdf_content\<close> catches every exception of the download and the extraction,
  shows it and returns the empty string.
\<close>

definition download_pdf_content :: "env \<Rightarrow> string \<Rightarrow> world \<Rightarrow> string \<times> world" where
  "download_pdf_content ev fid w =
     (let w1 = do_io (DriveDownload fid) w in
      case fetch_pdf ev fid of
        Inl e \<Rightarrow> ([], show_ui (StError ''Error downloading PDF content: '' (Some e)) w1)
      | Inr text \<Rightarrow> (text, w1))"

text \<open>
  The \<^verbatim>\<open>try\<close> block of the loop of \<open>import_pdfs\<close>, for document \<open>i\<close>: the new count of
  successful imports, or the exception that leaves the block.
  \<^verbatim>\<open>
  status_text.text(f"Processing {pdf['name']} ({i+1}/{total_pdfs})")
  drive_service = init_drive_service()
  text_content = download_pdf_content(drive_service, pdf['id'])
  if text_content:
      embedding = compute_embedding(text_content)
      drive_link = f"https://drive.google.com/file/d/{pdf['id']}/view"
      save_pdf_to_db(user_id=st.session_state.user_id, file_id=pdf['id'], ...,
                     text_content=text_content, embedding=embedding)
      successful_imports += 1
      st.success(f"Imported: {pdf['name']}")
  else:
      st.warning(f"No text content extracted from: {pdf['name']}")
  progress_bar.progress((i + 1) / total_pdfs)
  \<close>
\<close>

definition import_body ::
  "env \<Rightarrow> nat \<Rightarrow> nat \<Rightarrow> drive_pdf \<Rightarrow> nat \<Rightarrow> world \<Rightarrow> (py_exn + nat) \<times> world" where
  "import_body ev total_pdfs i pdf successful_imports w =
     (let w1 = show_ui (StatusProcessing (pdf_name pdf) (i + 1) total_pdfs) w in
      case download_pdf_content ev (pdf_id pdf) w1 of
        (text, w2) \<Rightarrow>
          (if text \<noteq> [] then
             (case compute_embedding ev text w2 of
                (Inl e, w3) \<Rightarrow> (Inl e, w3)
              | (Inr emb, w3) \<Rightarrow>
                  (let w4 = do_io (DbReplace (pdf_id pdf))
                         (w3\<lparr>db := save_pdf_to_db (utcnow ev i) (Some (session_user_id w3))
                                     (pdf_id pdf) (pdf_name pdf)
                                     (''https://drive.google.com/file/d/'' @ pdf_id pdf @ ''/view'')
                                     (pdf_modifiedTime pdf) (pdf_size pdf) (pdf_parent pdf)
                                     (Some text) (Some emb) (db w3)\<rparr>);
                       w5 = show_ui (StSuccess (''Imported: '' @ pdf_name pdf)) w4
                   in (Inr (successful_imports + 1),
                       show_ui (Progress (i + 1) total_pdfs) w5)))
           else
             (let w3 = show_ui (StWarning (''No text content extracted from: '' @ pdf_name pdf)) w2
              in (Inr successful_imports, show_ui (Progress (i + 1) total_pdfs) w3))))"

text \<open>
  One turn of the loop, the \<^verbatim>\<open>try\<close> statement with its handler:
  \<^verbatim>\<open>
  try: ...
  except Exception as e:
      st.error(f"Error processing {pdf['name']}: {str(e)}")
      continue
  \<close>
\<close>

definition import_one ::
  "env \<Rightarrow> nat \<Rightarrow> nat \<Rightarrow> drive_pdf \<Rightarrow> nat \<Rightarrow> world \<Rightarrow> nat \<times> world" where
  "import_one ev total_pdfs i pdf successful_imports w =
     (case import_body ev total_pdfs i pdf successful_imports w of
        (Inr n, w1) \<Rightarrow> (n, w1)
      | (Inl e, w1) \<Rightarrow>
          (successful_imports,
           show_ui (StError (''Error processing '' @ pdf_name pdf @ '': '') (Some e)) w1))"

text \<open>\<^verbatim>\<open>for i, pdf in enumerate(selected_pdfs): ...\<close>\<close>

fun import_loop ::
  "env \<Rightarrow> nat \<Rightarrow> nat \<Rightarrow> drive_pdf list \<Rightarrow> nat \<Rightarrow> world \<Rightarrow> nat \<times> world" where
  "import_loop ev total_pdfs i [] successful_imports w = (successful_imports, w)"
| "import_loop ev total_pdfs i (pdf # rest) successful_imports w =
     (case import_one ev total_pdfs i pdf successful_imports w of
        (n, w1) \<Rightarrow> import_loop ev total_pdfs (i + 1) rest n w1)"

text \<open>
  \<^verbatim>\<open>
  def import_pdfs(selected_pdfs):
      progress_bar = st.progress(0)
      total_pdfs = len(selected_pdfs)
      successful_imports = 0
      st.info(f"Importing {total_pdfs} PDFs for user: {st.session_state.user_id}")
      for ...
      status_text.text("Import completed!")
      st.success(f"Successfully imported {successful_imports} out of {total_pdfs} PDFs")
      if successful_imports > 0:
          st.session_state.import_complete = True
          st.info("Import successful! The page will refresh to show navigation options.")
          st.rerun()
      else:
          st.error("No documents were successfully saved. Please try importing again.")
  \<close>
\<close>

definition import_pdfs :: "env \<Rightarrow> drive_pdf list \<Rightarrow> world \<Rightarrow> world" where
  "import_pdfs ev selected_pdfs w =
     (let total_pdfs = length selected_pdfs;
          w1 = show_ui (Progress 0 1) w;
          w2 = show_ui (ImportStart total_pdfs (session_user_id w1)) w1
      in case import_loop ev total_pdfs 0 selected_pdfs 0 w2 of
           (successful_imports, w3) \<Rightarrow>
             (let w4 = show_ui (StatusText ''Import completed!'') w3;
                  w5 = show_ui (ImportSummary successful_imports total_pdfs) w4
              in if successful_imports > 0 then
                   show_ui Rerun
                     (show_ui
                        (StInfo ''Import successful! The page will refresh to show navigation options.'')
                        (w5\<lparr>import_complete := True\<rparr>))
                 else
                   show_ui
                     (StError ''No documents were successfully saved. Please try importing again.'' None)
                     w5))"

subsection \<open>The context builder as the specification words it\<close>

text \<open>
  A history entry is well formed when it is a dict with a \<^verbatim>\<open>content\<close> and the role
  \<^verbatim>\<open>user\<close> or \<^verbatim>\<open>assistant\<close>. The context is the system message followed by the
  most recent ten well-formed turns, oldest first.
\<close>

fun well_formed :: "history_entry \<Rightarrow> bool" where
  "well_formed NotADict = False"
| "well_formed (Dict t) =
     (content t \<noteq> None \<and> (role t = Some (Str ''user'') \<or> role t = Some (Str ''assistant'')))"

fun as_message :: "history_entry \<Rightarrow> chat_message" where
  "as_message NotADict = \<lparr>msg_role = [], msg_content = []\<rparr>"
| "as_message (Dict t) =
     \<lparr>msg_role = (case role t of Some r \<Rightarrow> py_str r | None \<Rightarrow> []),
      msg_content = (case content t of Some c \<Rightarrow> py_str c | None \<Rightarrow> [])\<rparr>"

definition spec_context :: "history_entry list \<Rightarrow> match list \<Rightarrow> chat_message list" where
  "spec_context history top_matches =
     (let turns = map as_message (filter well_formed history)
      in system_message top_matches # drop (length turns - 10) turns)"

subsection \<open>Outcomes of one imported document\<close>

text \<open>
  The status line's announcements, the documents that fail (the download or the
  extraction raises, the text is empty, or the embedding raises), and the database after
  a document is saved.
\<close>

fun is_status_processing :: "ui_event \<Rightarrow> bool" where
  "is_status_processing (StatusProcessing nm k t) = True"
| "is_status_processing e = False"

definition document_fails :: "env \<Rightarrow> drive_pdf \<Rightarrow> world \<Rightarrow> bool" where
  "document_fails ev pdf w =
     (case fetch_pdf ev (pdf_id pdf) of
        Inl e \<Rightarrow> True
      | Inr text \<Rightarrow>
          text = [] \<or> (case fst (compute_embedding ev text w) of Inl e \<Rightarrow> True | Inr emb \<Rightarrow> False))"

definition saved_by :: "env \<Rightarrow> nat \<Rightarrow> drive_pdf \<Rightarrow> string \<Rightarrow> real list \<Rightarrow> world \<Rightarrow> database" where
  "saved_by ev i pdf text v w =
     save_pdf_to_db (utcnow ev i) (Some (session_user_id w)) (pdf_id pdf) (pdf_name pdf)
       (''https://drive.google.com/file/d/'' @ pdf_id pdf @ ''/view'')
       (pdf_modifiedTime pdf) (pdf_size pdf) (pdf_parent pdf)
       (Some text) (Some (JsonVec v)) (db w)"

subsection \<open>When the answer generator fails\<close>

text \<open>
  The text of a chat completion is at \<^verbatim>\<open>['choices'][0]['message']['content']\<close> of the
  body. The request has failed when there is no response, when the body is not JSON, when
  the status is one \<^verbatim>\<open>raise_for_status\<close> raises on, or when no string is at that path.
\<close>

fun answer_at_path :: "json \<Rightarrow> string option" where
  "answer_at_path (JObj kvs) =
     (case map_of kvs ''choices'' of
        Some (JArr (JObj ckvs # rest)) \<Rightarrow>
          (case map_of ckvs ''message'' of
             Some (JObj mkvs) \<Rightarrow>
               (case map_of mkvs ''content'' of
                  Some (JStr a) \<Rightarrow> Some a
                | _ \<Rightarrow> None)
           | _ \<Rightarrow> None)
      | _ \<Rightarrow> None)"
| "answer_at_path j = None"

fun generator_failure :: "http_result \<Rightarrow> bool" where
  "generator_failure ConnectionFailed = True"
| "generator_failure (Response status None) = True"
| "generator_failure (Response status (Some j)) =
     ((400 \<le> status \<and> status < 600) \<or> answer_at_path j = None)"

subsection \<open>Scores the sort can order\<close>


subsection \<open>A session to evaluate on\<close>

text \<open>
  The session state as the top of the script initialises it, an empty database, and
  collaborators that answer in a fixed way.
\<close>

definition example_encoder :: encoder where
  "example_encoder t = (if t = ''revenue'' then Inr [1, 0] else Inr [0, 1])"

definition initial_world :: world where
  "initial_world =
     \<lparr>db = setup_db, embed_model = None, session_user_id = ''default_user'',
      conversation_history = [], import_complete = False, ui = [], io = []\<rparr>"

definition example_env :: env where
  "example_env =
     \<lparr>load_primary = Inr example_encoder,
      load_fallback = Inl (RuntimeError ''no model''),
      fetch_pdf = (\<lambda>fid. if fid = ''f1'' then Inr ''Q3 revenue grew 12%''
                          else if fid = ''f2'' then Inr []
                          else Inl (RuntimeError ''download'')),
      http_post = (\<lambda>ms. Response 500 None),
      utcnow = (\<lambda>i. i)\<rparr>"

text \<open>
  A database of four rows of one owner: two with the same embedding, one with no
  embedding, one whose embedding is the zero vector.
\<close>

definition example_db :: database where
  "example_db =
     \<lparr>rows =
        [\<lparr>file_id = ''f1'', name = ''q3.pdf'', drive_link = ''l1'', modified_time = ''t1'',
          size_bytes = 10, parent = ''Drive'', row_id = 1, user_id = Some ''default_user'',
          text_content = Some ''Q3 revenue grew 12%'', embedding = Some (JsonVec [1, 0]),
          last_indexed = 1\<rparr>,
         \<lparr>file_id = ''f2'', name = ''scan.pdf'', drive_link = ''l2'', modified_time = ''t2'',
          size_bytes = 20, parent = ''Drive'', row_id = 2, user_id = Some ''default_user'',
          text_content = None, embedding = None, last_indexed = 2\<rparr>,
         \<lparr>file_id = ''f3'', name = ''copy.pdf'', drive_link = ''l3'', modified_time = ''t3'',
          size_bytes = 30, parent = ''Drive'', row_id = 3, user_id = Some ''default_user'',
          text_content = Some ''Q3 revenue grew 12%'', embedding = Some (JsonVec [1, 0]),
          last_indexed = 3\<rparr>,
         \<lparr>file_id = ''f4'', name = ''zero.pdf'', drive_link = ''l4'', modified_time = ''t4'',
          size_bytes = 40, parent = ''Drive'', row_id = 4, user_id = Some ''default_user'',
          text_content = Some ''blank'', embedding = Some (JsonVec [0, 0]),
          last_indexed = 4\<rparr>],
      sqlite_sequence = 4\<rparr>"


text \<open>A well-formed chat completion body.\<close>

definition example_body :: json where
  "example_body =
     JObj [(''choices'',
            JArr [JObj [(''message'',
                         JObj [(''role'', JStr ''assistant''),
                               (''content'', JStr ''Revenue grew 12%. '')])]])]"

text \<open>An entry of a Drive listing.\<close>

definition example_pdf :: "string \<Rightarrow> string \<Rightarrow> drive_pdf" where
  "example_pdf fid nm =
     \<lparr>pdf_id = fid, pdf_name = nm, pdf_size = 10, pdf_modifiedTime = ''2024-01-01 10:00'',
      pdf_parent = ''Drive''\<rparr>"

section \<open>Properties\<close>

subsection \<open>Vectors: sums of squares and dot products\<close>

lemma sumsq_nonneg: "0 \<le> sum_list (map (\<lambda>x. x * x) (a::real list))"
  by (induction a) auto

lemma sumsq_zero_iff:
  "sum_list (map (\<lambda>x. x * x) (a::real list)) = 0 \<longleftrightarrow> (\<forall>x\<in>set a. x = 0)"
proof (induction a)
  case Nil
  show ?case by simp
next
  case (Cons x xs)
  have "x * x + sum_list (map (\<lambda>x. x * x) xs) = 0 \<longleftrightarrow>
        x * x = 0 \<and> sum_list (map (\<lambda>x. x * x) xs) = 0"
    using sumsq_nonneg [of xs] by (intro add_nonneg_eq_0_iff) simp_all
  with Cons show ?case by simp
qed

lemma np_norm_zero_iff: "np_norm a = 0 \<longleftrightarrow> (\<forall>x\<in>set a. x = 0)"
  by (simp add: np_norm_def sumsq_zero_iff)

lemma np_norm_square: "np_norm a * np_norm a = sum_list (map (\<lambda>x. x * x) a)"
  by (simp add: np_norm_def sumsq_nonneg)

lemma zip_dot_zero_left:
  "\<forall>x\<in>set a. x = 0 \<Longrightarrow> sum_list (map (\<lambda>(x, y). x * y) (zip a b)) = (0::real)"
proof (induction a arbitrary: b)
  case Nil
  show ?case by simp
next
  case (Cons x xs)
  then show ?case by (cases b) simp_all
qed

lemma zip_dot_commute:
  "sum_list (map (\<lambda>(x, y). x * y) (zip a b)) =
   (sum_list (map (\<lambda>(x, y). x * y) (zip b a)) :: real)"
proof (induction a arbitrary: b)
  case Nil
  show ?case by simp
next
  case (Cons x xs)
  then show ?case by (cases b) (simp_all add: mult.commute)
qed

lemma zip_dot_self:
  "sum_list (map (\<lambda>(x, y). x * y) (zip a a)) = (sum_list (map (\<lambda>x. x * x) a) :: real)"
  by (induction a) simp_all

subsection \<open>Cosine similarity on a zero vector\<close>

lemma cosine_sim_eq:
  "length a = length b \<Longrightarrow>
   cosine_sim a b =
     Inr (np_div (sum_list (map (\<lambda>(x, y). x * y) (zip a b))) (np_norm a * np_norm b))"
  by (simp add: cosine_sim_def np_dot_def)

lemma cosine_sim_mismatch: "length a \<noteq> length b \<Longrightarrow> cosine_sim a b = Inl ValueError"
  by (simp add: cosine_sim_def np_dot_def)

text \<open>
  Claim C1, as the code has it: for two vectors of the same length, one of which is all
  zeros, \<open>cosine_sim\<close> raises nothing and returns \<^verbatim>\<open>nan\<close>, not \<open>0\<close>; for two vectors
  of different lengths the dot product raises \<^verbatim>\<open>ValueError\<close>.
\<close>

theorem cosine_sim_zero_vector_nan:
  "(length a = length b \<and> ((\<forall>x\<in>set a. x = 0) \<or> (\<forall>x\<in>set b. x = 0)) \<longrightarrow>
      cosine_sim a b = Inr NaN) \<and>
   (length a \<noteq> length b \<longrightarrow> cosine_sim a b = Inl ValueError)"
proof (intro conjI impI)
  assume h: "length a = length b \<and> ((\<forall>x\<in>set a. x = 0) \<or> (\<forall>x\<in>set b. x = 0))"
  have dot: "sum_list (map (\<lambda>(x, y). x * y) (zip a b)) = 0"
  proof (cases "\<forall>x\<in>set a. x = 0")
    case True
    then show ?thesis by (rule zip_dot_zero_left)
  next
    case False
    with h have "\<forall>x\<in>set b. x = 0" by blast
    then have "sum_list (map (\<lambda>(x, y). x * y) (zip b a)) = 0" by (rule zip_dot_zero_left)
    then show ?thesis by (simp add: zip_dot_commute [of a b])
  qed
  from h have "np_norm a = 0 \<or> np_norm b = 0"
    unfolding np_norm_zero_iff by blast
  then have "np_norm a * np_norm b = 0" by auto
  with dot h show "cosine_sim a b = Inr NaN"
    by (simp add: cosine_sim_eq np_div_def)
next
  assume "length a \<noteq> length b"
  then show "cosine_sim a b = Inl ValueError" by (rule cosine_sim_mismatch)
qed

theorem cosine_sim_zero_vector_nan_witness:
  "length [0, 0 :: real] = length [1, 2 :: real] \<and>
   cosine_sim [0, 0] [1, 2] = Inr NaN \<and>
   length [0, 0 :: real] \<noteq> length [1, 2, 3 :: real] \<and>
   cosine_sim [0, 0] [1, 2, 3] = Inl ValueError"
proof -
  have l: "length [0, 0 :: real] = length [1, 2 :: real]" by simp
  have z: "\<forall>x\<in>set [0, 0 :: real]. x = 0" by simp
  have d: "length [0, 0 :: real] \<noteq> length [1, 2, 3 :: real]" by simp
  from cosine_sim_zero_vector_nan [of "[0, 0]" "[1, 2]"] l z
  have "cosine_sim [0, 0] [1, 2] = Inr NaN" by blast
  moreover from cosine_sim_zero_vector_nan [of "[0, 0]" "[1, 2, 3]"] d
  have "cosine_sim [0, 0] [1, 2, 3] = Inl ValueError" by blast
  ultimately show ?thesis using l d by blast
qed

theorem cosine_sim_zero_norm_counterexample:
  "np_norm [0, 0] = 0 \<and> cosine_sim [0, 0] [1, 2] \<noteq> Inr (Fin 0) \<and>
   cosine_sim [0, 0] [1, 2] = Inr NaN"
  by (simp add: cosine_sim_def np_dot_def np_norm_def np_div_def)

subsection \<open>Symmetry and self-similarity\<close>

text \<open>
  Claim C9: \<open>cosine_sim\<close> is symmetric, and a vector whose norm is not zero has
  similarity exactly \<open>1\<close> with itself.
\<close>

theorem cosine_sim_symmetric_self:
  "cosine_sim a b = cosine_sim b a \<and>
   (np_norm a \<noteq> 0 \<longrightarrow> cosine_sim a a = Inr (Fin 1))"
proof
  show "cosine_sim a b = cosine_sim b a"
  proof (cases "length a = length b")
    case True
    then show ?thesis
      by (simp add: cosine_sim_eq zip_dot_commute [of a b] mult.commute)
  next
    case False
    then show ?thesis by (simp add: cosine_sim_mismatch)
  qed
next
  show "np_norm a \<noteq> 0 \<longrightarrow> cosine_sim a a = Inr (Fin 1)"
  proof
    assume nz: "np_norm a \<noteq> 0"
    have "cosine_sim a a = Inr (np_div (np_norm a * np_norm a) (np_norm a * np_norm a))"
      by (simp add: cosine_sim_eq zip_dot_self np_norm_square)
    with nz show "cosine_sim a a = Inr (Fin 1)"
      by (simp add: np_div_def)
  qed
qed

theorem cosine_sim_symmetric_self_witness:
  "cosine_sim [1, 0] [0, 1] = cosine_sim [0, 1] [1, 0] \<and>
   np_norm [1, 0] \<noteq> 0 \<and> cosine_sim [1, 0] [1, 0] = Inr (Fin 1)"
proof -
  have nz: "np_norm [1, 0] \<noteq> 0" by (simp add: np_norm_def)
  show ?thesis using nz cosine_sim_symmetric_self [of "[1, 0]" "[0, 1]"] by simp
qed

subsection \<open>The empty query\<close>

text \<open>
  Claim C6: for every scope and every \<open>top_k\<close>, a search with the empty query returns the
  empty list and leaves the world as it was: no model is loaded, nothing is encoded and
  the database is not read.
\<close>

theorem semantic_search_empty_query:
  "semantic_search ev [] top_k uid w = (Inr [], w)"
  by (simp add: semantic_search_def)

subsection \<open>Truncation before embedding\<close>

text \<open>
  Claim C7: the embedding of a text is the embedding of its first 4000 characters, so two
  texts that agree on their first 4000 characters embed identically.
\<close>

theorem compute_embedding_truncates:
  "compute_embedding ev t w = compute_embedding ev (take 4000 t) w \<and>
   (take 4000 s = take 4000 t \<longrightarrow> compute_embedding ev s w = compute_embedding ev t w)"
proof -
  have trunc: "(if length x > 4000 then take 4000 x else x) = take 4000 x" for x :: string
    by simp
  have eq: "compute_embedding ev x w = compute_embedding ev (take 4000 x) w" for x
    unfolding compute_embedding_def trunc by simp
  show ?thesis
  proof (intro conjI impI)
    show "compute_embedding ev t w = compute_embedding ev (take 4000 t) w" by (rule eq)
  next
    assume "take 4000 s = take 4000 t"
    then show "compute_embedding ev s w = compute_embedding ev t w"
      using eq [of s] eq [of t] by simp
  qed
qed

theorem compute_embedding_truncates_witness:
  "length (replicate 5000 (CHR ''a'')) = 5000 \<and> length (replicate 4000 (CHR ''a'')) = 4000 \<and>
   take 4000 (replicate 5000 (CHR ''a'')) = take 4000 (replicate 4000 (CHR ''a'')) \<and>
   compute_embedding example_env (replicate 5000 (CHR ''a'')) initial_world =
   compute_embedding example_env (replicate 4000 (CHR ''a'')) initial_world"
proof -
  have h: "take 4000 (replicate 5000 (CHR ''a'')) = take 4000 (replicate 4000 (CHR ''a''))"
    by simp
  show ?thesis
    using h compute_embedding_truncates
      [of example_env "replicate 4000 (CHR ''a'')" initial_world "replicate 5000 (CHR ''a'')"]
    by simp
qed

subsection \<open>Upsert by file id\<close>

lemma save_rows:
  "rows (save_pdf_to_db now uid fid nm link mtime sz par txt emb d) =
   filter (\<lambda>r. file_id r \<noteq> fid) (rows d) @
     [\<lparr>file_id = fid, name = nm, drive_link = link, modified_time = mtime,
       size_bytes = sz, parent = par,
       row_id = Suc (fold max (map row_id (rows d)) (sqlite_sequence d)), user_id = uid,
       text_content = txt, embedding = emb, last_indexed = now\<rparr>]"
  by (simp add: save_pdf_to_db_def Let_def)

text \<open>
  Claim C5: after \<open>save_pdf_to_db\<close> exactly one row holds the saved \<open>file_id\<close>, whatever
  rows and owners held it before; that row carries the saved owner, text and embedding;
  the rows of other files are untouched; and distinctness of the file ids is preserved.
\<close>

theorem save_pdf_to_db_upsert:
  "(\<exists>r. filter (\<lambda>r. file_id r = fid)
           (rows (save_pdf_to_db now uid fid nm link mtime sz par txt emb d)) = [r] \<and>
        user_id r = uid \<and> name r = nm \<and> text_content r = txt \<and> embedding r = emb \<and>
        last_indexed r = now) \<and>
   filter (\<lambda>r. file_id r \<noteq> fid)
     (rows (save_pdf_to_db now uid fid nm link mtime sz par txt emb d)) =
   filter (\<lambda>r. file_id r \<noteq> fid) (rows d) \<and>
   (distinct (map file_id (rows d)) \<longrightarrow>
    distinct (map file_id (rows (save_pdf_to_db now uid fid nm link mtime sz par txt emb d))))"
proof (intro conjI impI)
  show "\<exists>r. filter (\<lambda>r. file_id r = fid)
           (rows (save_pdf_to_db now uid fid nm link mtime sz par txt emb d)) = [r] \<and>
        user_id r = uid \<and> name r = nm \<and> text_content r = txt \<and> embedding r = emb \<and>
        last_indexed r = now"
    by (simp add: save_rows)
next
  show "filter (\<lambda>r. file_id r \<noteq> fid)
     (rows (save_pdf_to_db now uid fid nm link mtime sz par txt emb d)) =
   filter (\<lambda>r. file_id r \<noteq> fid) (rows d)"
    by (simp add: save_rows)
next
  assume "distinct (map file_id (rows d))"
  then have "distinct (map file_id (filter (\<lambda>r. file_id r \<noteq> fid) (rows d)))"
    by (rule distinct_map_filter)
  then show "distinct (map file_id (rows (save_pdf_to_db now uid fid nm link mtime sz par txt emb d)))"
    by (auto simp: save_rows)
qed

theorem save_pdf_to_db_upsert_witness:
  "distinct (map file_id (rows (save_pdf_to_db 1 (Some ''alice'') ''f1'' ''a.pdf'' ''l'' ''t'' 10 ''Drive''
       (Some ''old text'') (Some (JsonVec [1, 0])) setup_db))) \<and>
   map (\<lambda>r. (file_id r, user_id r, text_content r, embedding r))
     (rows (save_pdf_to_db 2 (Some ''bob'') ''f1'' ''a.pdf'' ''l'' ''t'' 10 ''Drive''
        (Some ''new text'') (Some (JsonVec [0, 1]))
        (save_pdf_to_db 1 (Some ''alice'') ''f1'' ''a.pdf'' ''l'' ''t'' 10 ''Drive''
           (Some ''old text'') (Some (JsonVec [1, 0])) setup_db))) =
     [(''f1'', Some ''bob'', Some ''new text'', Some (JsonVec [0, 1]))] \<and>
   distinct (map file_id
     (rows (save_pdf_to_db 2 (Some ''bob'') ''f1'' ''a.pdf'' ''l'' ''t'' 10 ''Drive''
        (Some ''new text'') (Some (JsonVec [0, 1]))
        (save_pdf_to_db 1 (Some ''alice'') ''f1'' ''a.pdf'' ''l'' ''t'' 10 ''Drive''
           (Some ''old text'') (Some (JsonVec [1, 0])) setup_db))))"
proof -
  let ?d = "save_pdf_to_db 1 (Some ''alice'') ''f1'' ''a.pdf'' ''l'' ''t'' 10 ''Drive''
       (Some ''old text'') (Some (JsonVec [1, 0])) setup_db"
  have h: "distinct (map file_id (rows ?d))"
    by (simp add: save_pdf_to_db_def setup_db_def)
  have r: "map (\<lambda>r. (file_id r, user_id r, text_content r, embedding r))
     (rows (save_pdf_to_db 2 (Some ''bob'') ''f1'' ''a.pdf'' ''l'' ''t'' 10 ''Drive''
        (Some ''new text'') (Some (JsonVec [0, 1])) ?d)) =
     [(''f1'', Some ''bob'', Some ''new text'', Some (JsonVec [0, 1]))]"
    by (simp add: save_pdf_to_db_def setup_db_def)
  show ?thesis
    using h r save_pdf_to_db_upsert [of "''f1''" 2 "Some ''bob''" "''a.pdf''" "''l''" "''t''" 10 "''Drive''"
        "Some ''new text''" "Some (JsonVec [0, 1])" ?d]
    by blast
qed

subsection \<open>The bounded conversation context\<close>

lemma clean_history_append:
  "clean_history h acc = acc @ concat (map clean_entry h)"
  by (induction h arbitrary: acc) simp_all

lemma clean_entry_spec:
  "clean_entry e = (if well_formed e then [as_message e] else [])"
proof (cases e)
  case NotADict
  then show ?thesis by simp
next
  case (Dict t)
  show ?thesis
  proof (cases "role t")
    case None
    with Dict show ?thesis by simp
  next
    case (Some r)
    show ?thesis
    proof (cases "content t")
      case None
      with Dict Some show ?thesis by simp
    next
      case c: (Some c)
      with Dict Some show ?thesis by (cases r) auto
    qed
  qed
qed

lemma concat_clean_spec:
  "concat (map clean_entry h) = map as_message (filter well_formed h)"
  by (induction h) (simp_all add: clean_entry_spec)

lemma build_messages_spec: "build_messages h tm = spec_context h tm"
  by (simp add: build_messages_def spec_context_def clean_history_append concat_clean_spec Let_def)

text \<open>
  Claim C2: the messages built for the answer generator are the system message followed
  by the last ten well-formed turns of the history in their order; malformed entries are
  dropped before the truncation; a history of 37 well-formed turns gives 11 messages.
\<close>

theorem build_messages_bounded:
  "build_messages h tm = spec_context h tm \<and>
   hd (build_messages h tm) = system_message tm \<and>
   msg_role (system_message tm) = ''system'' \<and>
   length (tl (build_messages h tm)) \<le> 10 \<and>
   (\<forall>m \<in> set (tl (build_messages h tm)). msg_role m = ''user'' \<or> msg_role m = ''assistant'') \<and>
   (length h = 37 \<and> (\<forall>e \<in> set h. well_formed e) \<longrightarrow> length (build_messages h tm) = 11)"
proof (intro conjI impI ballI)
  show "build_messages h tm = spec_context h tm" by (rule build_messages_spec)
  show "hd (build_messages h tm) = system_message tm"
    by (simp add: build_messages_def Let_def)
  show "msg_role (system_message tm) = ''system''"
    by (simp add: system_message_def)
  show "length (tl (build_messages h tm)) \<le> 10"
    by (simp add: build_messages_spec spec_context_def Let_def)
next
  fix m assume "m \<in> set (tl (build_messages h tm))"
  then have "m \<in> set (map as_message (filter well_formed h))"
    by (auto simp: build_messages_spec spec_context_def Let_def dest: in_set_dropD)
  then obtain e where e: "well_formed e" "m = as_message e" by auto
  then show "msg_role m = ''user'' \<or> msg_role m = ''assistant''"
    by (cases e) auto
next
  assume "length h = 37 \<and> (\<forall>e \<in> set h. well_formed e)"
  then have "filter well_formed h = h" "length h = 37" by simp_all
  then show "length (build_messages h tm) = 11"
    by (simp add: build_messages_spec spec_context_def Let_def)
qed

theorem build_messages_bounded_witness:
  "length (replicate 37 (user_turn ''hi'')) = 37 \<and>
   length (build_messages (replicate 37 (user_turn ''hi'')) []) = 11 \<and>
   length (tl (build_messages (replicate 37 (user_turn ''hi'')) [])) \<le> 10"
proof -
  have wf: "\<forall>e \<in> set (replicate 37 (user_turn ''hi'')). well_formed e"
    by (simp add: user_turn_def)
  have len: "length (replicate 37 (user_turn ''hi'')) = 37" by simp
  show ?thesis
    using wf len build_messages_bounded [of "replicate 37 (user_turn ''hi'')" "[]"]
    by blast
qed

subsection \<open>Search results\<close>





lemma length_insert_desc: "length (insert_desc x ys) = Suc (length ys)"
  by (induction ys) auto


lemma length_sorted_by_score_desc: "length (sorted_by_score_desc xs) = length xs"
  by (induction xs) (simp_all add: sorted_by_score_desc_def length_insert_desc)

















subsection \<open>Failure of the answer generator\<close>

lemma getitem_key_Inr:
  "getitem_key j k = Inr v \<longleftrightarrow> (\<exists>kvs. j = JObj kvs \<and> map_of kvs k = Some v)"
  by (cases j) (auto split: option.splits)

lemma getitem_0_JObj:
  "getitem_0 j = Inr (JObj kvs) \<longleftrightarrow> (\<exists>rest. j = JArr (JObj kvs # rest))"
  by (cases j rule: getitem_0.cases) auto

lemma strip_method_Inr: "strip_method j = Inr a \<longleftrightarrow> (\<exists>s. j = JStr s \<and> a = strip s)"
  by (cases j) auto

lemma answer_at_path_Some:
  "answer_at_path j = Some s \<longleftrightarrow>
   (\<exists>kvs ckvs rest mkvs. j = JObj kvs \<and>
      map_of kvs ''choices'' = Some (JArr (JObj ckvs # rest)) \<and>
      map_of ckvs ''message'' = Some (JObj mkvs) \<and>
      map_of mkvs ''content'' = Some (JStr s))"
  by (cases j) (auto split: option.splits json.splits list.splits)

lemma read_answer_Inr:
  "read_answer (Response status (Some j)) = Inr a \<longleftrightarrow>
   \<not> (400 \<le> status \<and> status < 600) \<and>
   (\<exists>cs c m x. getitem_key j ''choices'' = Inr cs \<and> getitem_0 cs = Inr c \<and>
      getitem_key c ''message'' = Inr m \<and> getitem_key m ''content'' = Inr x \<and>
      strip_method x = Inr a)"
  by (auto simp: read_answer_def split: sum.splits)

lemma read_answer_body:
  "read_answer (Response status (Some j)) = Inr a \<longleftrightarrow>
   \<not> (400 \<le> status \<and> status < 600) \<and> (\<exists>s. answer_at_path j = Some s \<and> a = strip s)"
proof
  assume "read_answer (Response status (Some j)) = Inr a"
  then obtain cs c m x where ok: "\<not> (400 \<le> status \<and> status < 600)"
    and steps: "getitem_key j ''choices'' = Inr cs" "getitem_0 cs = Inr c"
      "getitem_key c ''message'' = Inr m" "getitem_key m ''content'' = Inr x"
      "strip_method x = Inr a"
    unfolding read_answer_Inr by blast
  from steps(3) obtain ckvs where c: "c = JObj ckvs" "map_of ckvs ''message'' = Some m"
    unfolding getitem_key_Inr by blast
  from steps(2) c(1) have "getitem_0 cs = Inr (JObj ckvs)" by simp
  then obtain rest where cs: "cs = JArr (JObj ckvs # rest)"
    unfolding getitem_0_JObj by blast
  from steps(1) obtain kvs where j: "j = JObj kvs" "map_of kvs ''choices'' = Some cs"
    unfolding getitem_key_Inr by blast
  from steps(4) obtain mkvs where m: "m = JObj mkvs" "map_of mkvs ''content'' = Some x"
    unfolding getitem_key_Inr by blast
  from steps(5) obtain s where x: "x = JStr s" "a = strip s"
    unfolding strip_method_Inr by blast
  have "answer_at_path j = Some s"
    unfolding answer_at_path_Some using j c cs m x by blast
  with ok x(2) show "\<not> (400 \<le> status \<and> status < 600) \<and> (\<exists>s. answer_at_path j = Some s \<and> a = strip s)"
    by blast
next
  assume "\<not> (400 \<le> status \<and> status < 600) \<and> (\<exists>s. answer_at_path j = Some s \<and> a = strip s)"
  then obtain s where ok: "\<not> (400 \<le> status \<and> status < 600)"
    and s: "answer_at_path j = Some s" "a = strip s" by blast
  from s(1) obtain kvs ckvs rest mkvs where "j = JObj kvs"
      "map_of kvs ''choices'' = Some (JArr (JObj ckvs # rest))"
      "map_of ckvs ''message'' = Some (JObj mkvs)"
      "map_of mkvs ''content'' = Some (JStr s)"
    unfolding answer_at_path_Some by blast
  with ok s(2) show "read_answer (Response status (Some j)) = Inr a"
    by (simp add: read_answer_def)
qed

lemma generator_failure_iff:
  "generator_failure res \<longleftrightarrow> (\<exists>e. read_answer res = Inl e)"
proof (cases res)
  case ConnectionFailed
  then show ?thesis by (simp add: read_answer_def)
next
  case (Response status body)
  show ?thesis
  proof (cases body)
    case None
    with Response show ?thesis by (simp add: read_answer_def)
  next
    case (Some j)
    have "(\<exists>e. read_answer res = Inl e) \<longleftrightarrow> \<not> (\<exists>a. read_answer res = Inr a)"
      by (cases "read_answer res") auto
    also have "\<dots> \<longleftrightarrow> generator_failure res"
      using Response Some by (auto simp: read_answer_body)
    finally show ?thesis by simp
  qed
qed

lemma get_embed_model_history:
  "conversation_history (snd (get_embed_model ev w)) = conversation_history w"
  by (simp add: get_embed_model_def show_ui_def Let_def split: option.splits sum.splits)

lemma semantic_search_history:
  "conversation_history (snd (semantic_search ev q k uid w)) = conversation_history w"
proof (cases "get_embed_model ev w")
  case (Pair res w1)
  then have "conversation_history w1 = conversation_history w"
    using get_embed_model_history [of ev w] by simp
  with Pair show ?thesis
    by (simp add: semantic_search_def do_io_def Let_def split: sum.splits)
qed

lemma answer_query_failure:
  assumes "read_answer (http_post ev (build_messages h tm)) = Inl e"
  shows "answer_query_with_groq ev h tm w =
         ((apology, []),
          show_ui (StError ''Error calling Groq API: '' (Some e))
            (do_io (HttpPost (build_messages h tm)) w))"
  using assms by (simp add: answer_query_with_groq_def Let_def)

text \<open>
  Claim C3, as the code has it: when the request fails (no connection, a status from 400
  to 599, a body that is not JSON or has no text at the path) \<open>answer_query_with_groq\<close>
  returns the apology with no sources and shows one error; \<open>chat_submit\<close> then records
  the question and the apology, in this order, after the history it found. Whatever
  happens, the question's turn stays where it was appended.
\<close>

theorem generator_failure_degrades:
  "(generator_failure (http_post ev (build_messages h tm)) \<longrightarrow>
      (\<exists>e. answer_query_with_groq ev h tm w =
         ((apology, []),
          show_ui (StError ''Error calling Groq API: '' (Some e))
            (do_io (HttpPost (build_messages h tm)) w)))) \<and>
   (q \<noteq> [] \<and>
    fst (semantic_search ev q 5 (Some (session_user_id w))
           (show_ui (StWrite q)
              (w\<lparr>conversation_history := conversation_history w @ [user_turn q]\<rparr>))) = Inr tm \<and>
    generator_failure (http_post ev (build_messages (conversation_history w @ [user_turn q]) tm)) \<longrightarrow>
      fst (chat_submit ev q w) = Inr () \<and>
      conversation_history (snd (chat_submit ev q w)) =
        conversation_history w @ [user_turn q, assistant_turn apology []] \<and>
      (\<exists>e. StError ''Error calling Groq API: '' (Some e) \<in> set (ui (snd (chat_submit ev q w))))) \<and>
   (q \<noteq> [] \<longrightarrow>
      take (Suc (length (conversation_history w))) (conversation_history (snd (chat_submit ev q w))) =
        conversation_history w @ [user_turn q])"
proof (intro conjI impI)
  assume "generator_failure (http_post ev (build_messages h tm))"
  then obtain e where "read_answer (http_post ev (build_messages h tm)) = Inl e"
    unfolding generator_failure_iff ..
  then have "answer_query_with_groq ev h tm w =
         ((apology, []),
          show_ui (StError ''Error calling Groq API: '' (Some e))
            (do_io (HttpPost (build_messages h tm)) w))"
    by (rule answer_query_failure)
  then show "\<exists>e. answer_query_with_groq ev h tm w =
         ((apology, []),
          show_ui (StError ''Error calling Groq API: '' (Some e))
            (do_io (HttpPost (build_messages h tm)) w))" ..
next
  let ?w2 = "show_ui (StWrite q)
              (w\<lparr>conversation_history := conversation_history w @ [user_turn q]\<rparr>)"
  assume a: "q \<noteq> [] \<and>
    fst (semantic_search ev q 5 (Some (session_user_id w)) ?w2) = Inr tm \<and>
    generator_failure (http_post ev (build_messages (conversation_history w @ [user_turn q]) tm))"
  obtain w3 where s: "semantic_search ev q 5 (Some (session_user_id w)) ?w2 = (Inr tm, w3)"
    using a by (cases "semantic_search ev q 5 (Some (session_user_id w)) ?w2") simp
  have h3: "conversation_history w3 = conversation_history w @ [user_turn q]"
    using semantic_search_history [of ev q 5 "Some (session_user_id w)" ?w2] s
    by (simp add: show_ui_def)
  from a obtain e where
    "read_answer (http_post ev (build_messages (conversation_history w @ [user_turn q]) tm)) = Inl e"
    unfolding generator_failure_iff by blast
  then have ans: "answer_query_with_groq ev (conversation_history w3) tm w3 =
         ((apology, []),
          show_ui (StError ''Error calling Groq API: '' (Some e))
            (do_io (HttpPost (build_messages (conversation_history w3) tm)) w3))"
    unfolding h3 [symmetric] by (rule answer_query_failure)
  have uid: "session_user_id ?w2 = session_user_id w" by (simp add: show_ui_def)
  have run: "chat_submit ev q w =
      (Inr (),
       (show_ui (StWrite apology)
          (show_ui (StError ''Error calling Groq API: '' (Some e))
             (do_io (HttpPost (build_messages (conversation_history w3) tm)) w3)))
        \<lparr>conversation_history := conversation_history w3 @ [assistant_turn apology []]\<rparr>)"
    using a s ans by (simp add: chat_submit_def Let_def uid show_ui_def do_io_def)
  show "fst (chat_submit ev q w) = Inr ()"
    by (simp add: run)
  show "conversation_history (snd (chat_submit ev q w)) =
        conversation_history w @ [user_turn q, assistant_turn apology []]"
    by (simp add: run h3)
  have "StError ''Error calling Groq API: '' (Some e) \<in> set (ui (snd (chat_submit ev q w)))"
    by (simp add: run show_ui_def do_io_def)
  then show "\<exists>e. StError ''Error calling Groq API: '' (Some e) \<in> set (ui (snd (chat_submit ev q w)))" ..
next
  let ?w2 = "show_ui (StWrite q)
              (w\<lparr>conversation_history := conversation_history w @ [user_turn q]\<rparr>)"
  assume q: "q \<noteq> []"
  obtain res w3 where s: "semantic_search ev q 5 (Some (session_user_id w)) ?w2 = (res, w3)"
    by (cases "semantic_search ev q 5 (Some (session_user_id w)) ?w2")
  have h3: "conversation_history w3 = conversation_history w @ [user_turn q]"
    using semantic_search_history [of ev q 5 "Some (session_user_id w)" ?w2] s
    by (simp add: show_ui_def)
  have uid: "session_user_id ?w2 = session_user_id w" by (simp add: show_ui_def)
  show "take (Suc (length (conversation_history w))) (conversation_history (snd (chat_submit ev q w))) =
        conversation_history w @ [user_turn q]"
  proof (cases res)
    case (Inl e)
    with q s h3 show ?thesis by (simp add: chat_submit_def Let_def uid)
  next
    case (Inr top_matches)
    obtain answer srcs w4 where
      ans: "answer_query_with_groq ev (conversation_history w3) top_matches w3 = ((answer, srcs), w4)"
      by (cases "answer_query_with_groq ev (conversation_history w3) top_matches w3") auto
    then have "conversation_history w4 = conversation_history w3"
      by (auto simp: answer_query_with_groq_def Let_def show_ui_def do_io_def split: sum.splits)
    with q s h3 Inr ans show ?thesis
      by (simp add: chat_submit_def Let_def uid show_ui_def)
  qed
qed

theorem generator_failure_degrades_witness:
  "fst (semantic_search example_env ''revenue'' 5 (Some (session_user_id (initial_world\<lparr>db := example_db\<rparr>)))
          (show_ui (StWrite ''revenue'')
             ((initial_world\<lparr>db := example_db\<rparr>)
                \<lparr>conversation_history :=
                   conversation_history (initial_world\<lparr>db := example_db\<rparr>) @ [user_turn ''revenue'']\<rparr>))) =
     Inr [row_match (rows example_db ! 0) (Fin 1), row_match (rows example_db ! 2) (Fin 1)] \<and>
   generator_failure (Response 500 None) \<and>
   fst (chat_submit example_env ''revenue'' (initial_world\<lparr>db := example_db\<rparr>)) = Inr () \<and>
   conversation_history (snd (chat_submit example_env ''revenue'' (initial_world\<lparr>db := example_db\<rparr>))) =
     [user_turn ''revenue'', assistant_turn apology []]"
proof -
  let ?w = "initial_world\<lparr>db := example_db\<rparr>"
  let ?tm = "[row_match (rows example_db ! 0) (Fin 1), row_match (rows example_db ! 2) (Fin 1)]"
  have q: "''revenue'' \<noteq> []" by simp
  have run: "fst (semantic_search example_env ''revenue'' 5 (Some (session_user_id ?w))
          (show_ui (StWrite ''revenue'')
             (?w\<lparr>conversation_history := conversation_history ?w @ [user_turn ''revenue'']\<rparr>))) =
     Inr ?tm"
    by (simp add: semantic_search_def get_embed_model_def example_env_def initial_world_def
      example_encoder_def do_io_def show_ui_def select_embedded_def example_db_def score_row_def
      cosine_sim_def np_dot_def np_norm_def np_div_def row_match_def row_snippet_def
      sorted_by_score_desc_def slice_to_def Let_def)
  have post: "http_post example_env
      (build_messages (conversation_history ?w @ [user_turn ''revenue'']) ?tm) = Response 500 None"
    by (simp add: example_env_def)
  have fail: "generator_failure (http_post example_env
      (build_messages (conversation_history ?w @ [user_turn ''revenue'']) ?tm))"
    unfolding post by simp
  have hist: "conversation_history ?w = []" by (simp add: initial_world_def)
  from generator_failure_degrades [where ev = example_env and tm = ?tm and w = ?w and q = "''revenue''"] q run fail
  have "fst (chat_submit example_env ''revenue'' ?w) = Inr () \<and>
      conversation_history (snd (chat_submit example_env ''revenue'' ?w)) =
        conversation_history ?w @ [user_turn ''revenue'', assistant_turn apology []]"
    by blast
  with run hist show ?thesis by simp
qed

theorem generator_failure_counterexample:
  "\<not> (200 \<le> (300::nat) \<and> (300::nat) < 300) \<and>
   answer_query_with_groq
     (example_env\<lparr>http_post := (\<lambda>ms. Response 300 (Some example_body))\<rparr>)
     [user_turn ''revenue''] [row_match (rows example_db ! 0) (Fin 1)] initial_world =
   ((''Revenue grew 12%.'', [row_match (rows example_db ! 0) (Fin 1)]),
    do_io (HttpPost (build_messages [user_turn ''revenue'']
                       [row_match (rows example_db ! 0) (Fin 1)])) initial_world) \<and>
   ''Revenue grew 12%.'' \<noteq> apology \<and>
   ui (do_io (HttpPost (build_messages [user_turn ''revenue'']
                          [row_match (rows example_db ! 0) (Fin 1)])) initial_world) = []"
  by (simp add: answer_query_with_groq_def read_answer_def example_body_def example_env_def
      strip_def is_space_def apology_def do_io_def initial_world_def Let_def)

subsection \<open>Batch import: one failure does not stop the batch\<close>

lemma get_embed_model_frame:
  assumes "get_embed_model ev w = (res, w')"
  shows "db w' = db w \<and> session_user_id w' = session_user_id w \<and> io w' = io w \<and>
         (\<exists>es. ui w' = ui w @ es \<and> filter is_status_processing es = [])"
proof (cases "embed_model w")
  case (Some m)
  with assms show ?thesis by (simp add: get_embed_model_def)
next
  case None
  show ?thesis
  proof (cases "load_primary ev")
    case (Inr m)
    with assms None show ?thesis by (auto simp: get_embed_model_def)
  next
    case e1: (Inl e1)
    show ?thesis
    proof (cases "load_fallback ev")
      case (Inr m)
      with assms None e1 show ?thesis
        by (auto simp: get_embed_model_def show_ui_def Let_def)
    next
      case (Inl e2)
      with assms None e1 show ?thesis
        by (auto simp: get_embed_model_def show_ui_def Let_def)
    qed
  qed
qed

lemma get_embed_model_result:
  "embed_model w1 = embed_model w2 \<Longrightarrow>
   fst (get_embed_model ev w1) = fst (get_embed_model ev w2)"
  by (simp add: get_embed_model_def Let_def split: option.splits sum.splits)

lemma compute_embedding_frame:
  assumes "compute_embedding ev text w = (res, w')"
  shows "db w' = db w \<and> session_user_id w' = session_user_id w \<and>
         (\<exists>es. ui w' = ui w @ es \<and> filter is_status_processing es = []) \<and>
         (\<forall>emb. res = Inr emb \<longrightarrow> (\<exists>v. emb = JsonVec v))"
proof (cases "get_embed_model ev w")
  case (Pair r w1)
  note frame = get_embed_model_frame [OF Pair]
  show ?thesis
  proof (cases r)
    case (Inl e)
    with assms Pair have "res = Inl e" "w' = w1" by (simp_all add: compute_embedding_def Let_def)
    with frame show ?thesis by simp
  next
    case (Inr model)
    let ?t = "if length text > 4000 then take 4000 text else text"
    show ?thesis
    proof (cases "model ?t")
      case (Inl e)
      with assms Pair Inr have "res = Inl e" "w' = do_io (Encode ?t) w1"
        by (simp_all add: compute_embedding_def Let_def)
      with frame show ?thesis by (simp add: do_io_def)
    next
      case v: (Inr v)
      with assms Pair Inr have "res = Inr (JsonVec v)" "w' = do_io (Encode ?t) w1"
        by (simp_all add: compute_embedding_def Let_def)
      with frame show ?thesis by (simp add: do_io_def)
    qed
  qed
qed

lemma compute_embedding_result:
  assumes "embed_model w1 = embed_model w2"
  shows "fst (compute_embedding ev text w1) = fst (compute_embedding ev text w2)"
proof -
  from assms have "fst (get_embed_model ev w1) = fst (get_embed_model ev w2)"
    by (rule get_embed_model_result)
  then show ?thesis
    by (cases "get_embed_model ev w1"; cases "get_embed_model ev w2")
      (auto simp: compute_embedding_def Let_def split: sum.splits)
qed

lemma import_step:
  assumes "import_one ev t i pdf n w = (n', w')"
  shows "session_user_id w' = session_user_id w \<and>
         (\<exists>es. ui w' = ui w @ StatusProcessing (pdf_name pdf) (i + 1) t # es \<and>
               filter is_status_processing es = [] \<and>
               (document_fails ev pdf w \<longrightarrow>
                  StWarning (''No text content extracted from: '' @ pdf_name pdf) \<in> set es \<or>
                  (\<exists>x. StError (''Error processing '' @ pdf_name pdf @ '': '') (Some x) \<in> set es))) \<and>
         (document_fails ev pdf w \<longrightarrow> db w' = db w \<and> n' = n) \<and>
         (db w' = db w \<and> n' = n \<or>
          (\<exists>text v. fetch_pdf ev (pdf_id pdf) = Inr text \<and> text \<noteq> [] \<and> n' = n + 1 \<and>
             db w' = saved_by ev i pdf text v w))"
proof -
  let ?w1 = "show_ui (StatusProcessing (pdf_name pdf) (i + 1) t) w"
  let ?w2 = "do_io (DriveDownload (pdf_id pdf)) ?w1"
  let ?warn = "StWarning (''No text content extracted from: '' @ pdf_name pdf)"
  show ?thesis
  proof (cases "fetch_pdf ev (pdf_id pdf)")
    case (Inl e)
    with assms have "n' = n" and
      "w' = show_ui (Progress (i + 1) t) (show_ui ?warn
              (show_ui (StError ''Error downloading PDF content: '' (Some e)) ?w2))"
      by (simp_all add: import_one_def import_body_def download_pdf_content_def Let_def)
    then show ?thesis by (simp add: show_ui_def do_io_def)
  next
    case (Inr extracted)
    show ?thesis
    proof (cases "extracted = []")
      case True
      with assms Inr have "n' = n" and
        "w' = show_ui (Progress (i + 1) t) (show_ui ?warn ?w2)"
        by (simp_all add: import_one_def import_body_def download_pdf_content_def Let_def)
      then show ?thesis by (simp add: show_ui_def do_io_def)
    next
      case False
      obtain res w3 where ce: "compute_embedding ev extracted ?w2 = (res, w3)"
        by (cases "compute_embedding ev extracted ?w2")
      from compute_embedding_frame [OF ce] obtain es where
        frame: "db w3 = db w" "session_user_id w3 = session_user_id w"
          "ui w3 = ui w @ StatusProcessing (pdf_name pdf) (i + 1) t # es"
          "filter is_status_processing es = []"
          "\<forall>emb. res = Inr emb \<longrightarrow> (\<exists>v. emb = JsonVec v)"
        by (auto simp: show_ui_def do_io_def)
      have "embed_model ?w2 = embed_model w" by (simp add: show_ui_def do_io_def)
      then have "fst (compute_embedding ev extracted ?w2) = fst (compute_embedding ev extracted w)"
        by (rule compute_embedding_result)
      with ce have resw: "fst (compute_embedding ev extracted w) = res" by simp
      show ?thesis
      proof (cases res)
        case e: (Inl e)
        with assms Inr False ce have "n' = n" and
          "w' = show_ui (StError (''Error processing '' @ pdf_name pdf @ '': '') (Some e)) w3"
          by (simp_all add: import_one_def import_body_def download_pdf_content_def Let_def)
        then have w': "session_user_id w' = session_user_id w" "db w' = db w"
          "ui w' = ui w @ StatusProcessing (pdf_name pdf) (i + 1) t #
             (es @ [StError (''Error processing '' @ pdf_name pdf @ '': '') (Some e)])"
          using frame by (simp_all add: show_ui_def)
        have flt: "filter is_status_processing
             (es @ [StError (''Error processing '' @ pdf_name pdf @ '': '') (Some e)]) = []"
          using frame(4) by simp
        have rep: "\<exists>x. StError (''Error processing '' @ pdf_name pdf @ '': '') (Some x) \<in>
             set (es @ [StError (''Error processing '' @ pdf_name pdf @ '': '') (Some e)])"
          by (rule exI [of _ e]) simp
        from w' flt rep \<open>n' = n\<close> show ?thesis by blast
      next
        case emb: (Inr emb)
        with frame(5) obtain v where v: "emb = JsonVec v" by blast
        have nofail: "\<not> document_fails ev pdf w"
          using Inr False resw emb by (simp add: document_fails_def)
        from assms Inr False ce emb v have "n' = n + 1" and
          w': "w' = show_ui (Progress (i + 1) t)
                 (show_ui (StSuccess (''Imported: '' @ pdf_name pdf))
                    (do_io (DbReplace (pdf_id pdf))
                       (w3\<lparr>db := saved_by ev i pdf extracted v w3\<rparr>)))"
          by (simp_all add: import_one_def import_body_def download_pdf_content_def Let_def saved_by_def)
        have "saved_by ev i pdf extracted v w3 = saved_by ev i pdf extracted v w"
          using frame(1,2) by (simp add: saved_by_def)
        with w' have "db w' = saved_by ev i pdf extracted v w"
          by (simp add: show_ui_def do_io_def)
        moreover have "session_user_id w' = session_user_id w"
          using w' frame(2) by (simp add: show_ui_def do_io_def)
        moreover have "ui w' = ui w @ StatusProcessing (pdf_name pdf) (i + 1) t #
             (es @ [StSuccess (''Imported: '' @ pdf_name pdf), Progress (i + 1) t])"
          using w' frame(3) by (simp add: show_ui_def do_io_def)
        moreover have "filter is_status_processing
             (es @ [StSuccess (''Imported: '' @ pdf_name pdf), Progress (i + 1) t]) = []"
          using frame(4) by simp
        moreover have "extracted \<noteq> []" by (rule False)
        ultimately show ?thesis
          using \<open>n' = n + 1\<close> nofail Inr by blast
      qed
    qed
  qed
qed

lemma import_loop_append:
  "import_loop ev t i (xs @ ys) n w =
   (case import_loop ev t i xs n w of (n1, w1) \<Rightarrow> import_loop ev t (i + length xs) ys n1 w1)"
  by (induction xs arbitrary: i n w) (simp_all split: prod.splits)

lemma import_loop_trace:
  assumes "import_loop ev t i pdfs n w = (n', w')"
  shows "\<exists>es. ui w' = ui w @ es \<and>
           filter is_status_processing es =
             map (\<lambda>(k, p). StatusProcessing (pdf_name p) (k + 1) t) (enumerate i pdfs)"
  using assms
proof (induction pdfs arbitrary: i n w)
  case Nil
  then show ?case by simp
next
  case (Cons pdf rest)
  obtain n1 w1 where step: "import_one ev t i pdf n w = (n1, w1)"
    by (cases "import_one ev t i pdf n w")
  with Cons.prems have rest: "import_loop ev t (Suc i) rest n1 w1 = (n', w')"
    by simp
  from import_step [OF step] obtain es1 where
    es1: "ui w1 = ui w @ StatusProcessing (pdf_name pdf) (i + 1) t # es1"
      "filter is_status_processing es1 = []"
    by blast
  from Cons.IH [OF rest] obtain es2 where
    es2: "ui w' = ui w1 @ es2"
      "filter is_status_processing es2 =
         map (\<lambda>(k, p). StatusProcessing (pdf_name p) (k + 1) t) (enumerate (Suc i) rest)"
    by blast
  have "ui w' = ui w @ (StatusProcessing (pdf_name pdf) (i + 1) t # es1 @ es2)"
    using es1(1) es2(1) by simp
  moreover have "filter is_status_processing (StatusProcessing (pdf_name pdf) (i + 1) t # es1 @ es2) =
      map (\<lambda>(k, p). StatusProcessing (pdf_name p) (k + 1) t) (enumerate i (pdf # rest))"
    using es1(2) es2(2) by simp
  ultimately show ?case by blast
qed

text \<open>
  Claim C8: the loop over a batch is the loop over the documents before a given one, then
  the turn for that document, then the loop over all the documents after it, whatever the
  turn did. A document that fails (the download or extraction raises, the extracted text
  is empty, or the embedding raises) leaves the database and the count of imports as they
  were and is reported by a warning or an error that names it. The status line announces
  every document of the batch, in order.
\<close>

theorem import_failure_skips_and_continues:
  "import_loop ev t i (before @ pdf # rest) n w =
     (case import_loop ev t i before n w of
        (n1, w1) \<Rightarrow>
          (case import_one ev t (i + length before) pdf n1 w1 of
             (n2, w2) \<Rightarrow> import_loop ev t (i + length before + 1) rest n2 w2)) \<and>
   (document_fails ev pdf w \<longrightarrow>
      fst (import_one ev t i pdf n w) = n \<and>
      db (snd (import_one ev t i pdf n w)) = db w \<and>
      (\<exists>es. ui (snd (import_one ev t i pdf n w)) = ui w @ es \<and>
         (StWarning (''No text content extracted from: '' @ pdf_name pdf) \<in> set es \<or>
          (\<exists>x. StError (''Error processing '' @ pdf_name pdf @ '': '') (Some x) \<in> set es)))) \<and>
   (\<exists>es. ui (snd (import_loop ev t i pdfs n w)) = ui w @ es \<and>
      filter is_status_processing es =
        map (\<lambda>(k, p). StatusProcessing (pdf_name p) (k + 1) t) (enumerate i pdfs))"
proof (intro conjI impI)
  show "import_loop ev t i (before @ pdf # rest) n w =
     (case import_loop ev t i before n w of
        (n1, w1) \<Rightarrow>
          (case import_one ev t (i + length before) pdf n1 w1 of
             (n2, w2) \<Rightarrow> import_loop ev t (i + length before + 1) rest n2 w2))"
    unfolding import_loop_append [of ev t i before "pdf # rest"]
    by (simp split: prod.splits)
next
  obtain n1 w1 where step: "import_one ev t i pdf n w = (n1, w1)"
    by (cases "import_one ev t i pdf n w")
  note facts = import_step [OF step]
  assume fails: "document_fails ev pdf w"
  with facts have same: "db w1 = db w" "n1 = n" by blast+
  from facts fails obtain es where
    "ui w1 = ui w @ StatusProcessing (pdf_name pdf) (i + 1) t # es"
    "StWarning (''No text content extracted from: '' @ pdf_name pdf) \<in> set es \<or>
     (\<exists>x. StError (''Error processing '' @ pdf_name pdf @ '': '') (Some x) \<in> set es)"
    by blast
  then have rep: "\<exists>es. ui w1 = ui w @ es \<and>
         (StWarning (''No text content extracted from: '' @ pdf_name pdf) \<in> set es \<or>
          (\<exists>x. StError (''Error processing '' @ pdf_name pdf @ '': '') (Some x) \<in> set es))"
    by (intro exI [of _ "StatusProcessing (pdf_name pdf) (i + 1) t # es"]) auto
  show "fst (import_one ev t i pdf n w) = n"
    unfolding step using same by simp
  show "db (snd (import_one ev t i pdf n w)) = db w"
    unfolding step using same by simp
  show "\<exists>es. ui (snd (import_one ev t i pdf n w)) = ui w @ es \<and>
         (StWarning (''No text content extracted from: '' @ pdf_name pdf) \<in> set es \<or>
          (\<exists>x. StError (''Error processing '' @ pdf_name pdf @ '': '') (Some x) \<in> set es))"
    unfolding step using rep by simp
next
  obtain n' w' where run: "import_loop ev t i pdfs n w = (n', w')"
    by (cases "import_loop ev t i pdfs n w")
  show "\<exists>es. ui (snd (import_loop ev t i pdfs n w)) = ui w @ es \<and>
      filter is_status_processing es =
        map (\<lambda>(k, p). StatusProcessing (pdf_name p) (k + 1) t) (enumerate i pdfs)"
    unfolding run using import_loop_trace [OF run] by simp
qed

theorem import_failure_skips_and_continues_witness:
  "document_fails example_env (example_pdf ''f2'' ''scan.pdf'') initial_world \<and>
   fst (import_one example_env 2 0 (example_pdf ''f2'' ''scan.pdf'') 0 initial_world) = 0 \<and>
   db (snd (import_one example_env 2 0 (example_pdf ''f2'' ''scan.pdf'') 0 initial_world)) =
     db initial_world \<and>
   fst (import_loop example_env 2 0
          [example_pdf ''f2'' ''scan.pdf'', example_pdf ''f1'' ''q3.pdf''] 0 initial_world) = 1"
proof -
  have fails: "document_fails example_env (example_pdf ''f2'' ''scan.pdf'') initial_world"
    by (simp add: document_fails_def example_env_def example_pdf_def)
  have run: "fst (import_loop example_env 2 0
          [example_pdf ''f2'' ''scan.pdf'', example_pdf ''f1'' ''q3.pdf''] 0 initial_world) = 1"
    by (simp add: import_one_def import_body_def download_pdf_content_def compute_embedding_def
        get_embed_model_def example_env_def example_pdf_def example_encoder_def
        initial_world_def show_ui_def do_io_def Let_def)
  from import_failure_skips_and_continues
    [where ev = example_env and pdf = "example_pdf ''f2'' ''scan.pdf''" and w = initial_world
       and t = 2 and i = 0 and n = 0]
    fails run
  show ?thesis by blast
qed

subsection \<open>Batch import: what is persisted\<close>

lemma import_loop_rows:
  assumes "import_loop ev t i pdfs n w = (n', w')"
  shows "\<forall>r\<in>set (rows (db w')). r \<in> set (rows (db w)) \<or>
           (\<exists>tx v. text_content r = Some tx \<and> tx \<noteq> [] \<and> embedding r = Some (JsonVec v) \<and>
              fetch_pdf ev (file_id r) = Inr tx)"
  using assms
proof (induction pdfs arbitrary: i n w)
  case Nil
  then show ?case by simp
next
  case (Cons pdf rest)
  obtain n1 w1 where step: "import_one ev t i pdf n w = (n1, w1)"
    by (cases "import_one ev t i pdf n w")
  with Cons.prems have rest: "import_loop ev t (Suc i) rest n1 w1 = (n', w')"
    by simp
  note IH = Cons.IH [OF rest]
  have one: "\<forall>r\<in>set (rows (db w1)). r \<in> set (rows (db w)) \<or>
           (\<exists>tx v. text_content r = Some tx \<and> tx \<noteq> [] \<and> embedding r = Some (JsonVec v) \<and>
              fetch_pdf ev (file_id r) = Inr tx)"
  proof (cases "db w1 = db w")
    case True
    then show ?thesis by simp
  next
    case False
    with import_step [OF step] obtain tx v where
      sv: "fetch_pdf ev (pdf_id pdf) = Inr tx" "tx \<noteq> []" "db w1 = saved_by ev i pdf tx v w"
      by blast
    show ?thesis
    proof
      fix r assume "r \<in> set (rows (db w1))"
      then have "r \<in> set (rows (db w)) \<or>
          (file_id r = pdf_id pdf \<and> text_content r = Some tx \<and> embedding r = Some (JsonVec v))"
        unfolding sv(3) saved_by_def save_rows by auto
      with sv(1,2) show "r \<in> set (rows (db w)) \<or>
           (\<exists>tx v. text_content r = Some tx \<and> tx \<noteq> [] \<and> embedding r = Some (JsonVec v) \<and>
              fetch_pdf ev (file_id r) = Inr tx)"
        by auto
    qed
  qed
  show ?case
  proof
    fix r assume "r \<in> set (rows (db w'))"
    with IH have "r \<in> set (rows (db w1)) \<or>
           (\<exists>tx v. text_content r = Some tx \<and> tx \<noteq> [] \<and> embedding r = Some (JsonVec v) \<and>
              fetch_pdf ev (file_id r) = Inr tx)"
      by blast
    with one show "r \<in> set (rows (db w)) \<or>
           (\<exists>tx v. text_content r = Some tx \<and> tx \<noteq> [] \<and> embedding r = Some (JsonVec v) \<and>
              fetch_pdf ev (file_id r) = Inr tx)"
      by blast
  qed
qed

lemma import_pdfs_db:
  "db (import_pdfs ev pdfs w) =
   db (snd (import_loop ev (length pdfs) 0 pdfs 0
      (show_ui (ImportStart (length pdfs) (session_user_id w)) (show_ui (Progress 0 1) w))))"
  by (simp add: import_pdfs_def Let_def show_ui_def split: prod.splits)

text \<open>
  Claim C10: every row of the database after \<open>import_pdfs\<close> is a row that was there
  before, or has a non-empty text, which is the text extracted for its file, and a present
  embedding. A file whose extraction fails or gives the empty text gets no row from the
  import.
\<close>

theorem import_rows_have_text_and_embedding:
  "(\<forall>r\<in>set (rows (db (import_pdfs ev pdfs w))).
      r \<in> set (rows (db w)) \<or>
      (\<exists>tx v. text_content r = Some tx \<and> tx \<noteq> [] \<and> embedding r = Some (JsonVec v) \<and>
         fetch_pdf ev (file_id r) = Inr tx)) \<and>
   (fetch_pdf ev fid = Inr [] \<or> (\<exists>e. fetch_pdf ev fid = Inl e) \<longrightarrow>
      (\<forall>r\<in>set (rows (db (import_pdfs ev pdfs w))). file_id r = fid \<longrightarrow> r \<in> set (rows (db w))))"
proof -
  let ?w0 = "show_ui (ImportStart (length pdfs) (session_user_id w)) (show_ui (Progress 0 1) w)"
  obtain n' w' where run: "import_loop ev (length pdfs) 0 pdfs 0 ?w0 = (n', w')"
    by (cases "import_loop ev (length pdfs) 0 pdfs 0 ?w0")
  have db0: "db ?w0 = db w" by (simp add: show_ui_def)
  have dbf: "db (import_pdfs ev pdfs w) = db w'"
    unfolding import_pdfs_db run by simp
  have inv: "\<forall>r\<in>set (rows (db (import_pdfs ev pdfs w))).
      r \<in> set (rows (db w)) \<or>
      (\<exists>tx v. text_content r = Some tx \<and> tx \<noteq> [] \<and> embedding r = Some (JsonVec v) \<and>
         fetch_pdf ev (file_id r) = Inr tx)"
    using import_loop_rows [OF run] unfolding dbf db0 .
  have "fetch_pdf ev fid = Inr [] \<or> (\<exists>e. fetch_pdf ev fid = Inl e) \<longrightarrow>
      (\<forall>r\<in>set (rows (db (import_pdfs ev pdfs w))). file_id r = fid \<longrightarrow> r \<in> set (rows (db w)))"
  proof (intro impI ballI)
    fix r
    assume f: "fetch_pdf ev fid = Inr [] \<or> (\<exists>e. fetch_pdf ev fid = Inl e)"
      and r: "r \<in> set (rows (db (import_pdfs ev pdfs w)))" and fid: "file_id r = fid"
    from inv r have "r \<in> set (rows (db w)) \<or>
      (\<exists>tx v. text_content r = Some tx \<and> tx \<noteq> [] \<and> embedding r = Some (JsonVec v) \<and>
         fetch_pdf ev (file_id r) = Inr tx)" by blast
    with f fid show "r \<in> set (rows (db w))" by auto
  qed
  with inv show ?thesis by blast
qed

theorem import_rows_have_text_and_embedding_witness:
  "fetch_pdf example_env ''f2'' = Inr [] \<and>
   map (\<lambda>r. (file_id r, text_content r, embedding r))
     (rows (db (import_pdfs example_env
        [example_pdf ''f2'' ''scan.pdf'', example_pdf ''f1'' ''q3.pdf''] initial_world))) =
   [(''f1'', Some ''Q3 revenue grew 12%'', Some (JsonVec [0, 1]))]"
proof -
  have f: "fetch_pdf example_env ''f2'' = Inr []"
    by (simp add: example_env_def)
  have run: "map (\<lambda>r. (file_id r, text_content r, embedding r))
     (rows (db (import_pdfs example_env
        [example_pdf ''f2'' ''scan.pdf'', example_pdf ''f1'' ''q3.pdf''] initial_world))) =
   [(''f1'', Some ''Q3 revenue grew 12%'', Some (JsonVec [0, 1]))]"
    by (simp add: import_pdfs_def import_one_def import_body_def download_pdf_content_def
        compute_embedding_def get_embed_model_def save_pdf_to_db_def setup_db_def
        example_env_def example_pdf_def example_encoder_def
        initial_world_def show_ui_def do_io_def Let_def)
  from import_rows_have_text_and_embedding
    [where ev = example_env and w = initial_world and fid = "''f2''"
       and pdfs = "[example_pdf ''f2'' ''scan.pdf'', example_pdf ''f1'' ''q3.pdf'']"]
    f run
  show ?thesis by blast
qed

end
